theory Spec2Isabelle
  imports Complex_Main
begin

section \<open>Multinode constraints of bioptim\<close>

text \<open>
  A shallow embedding of \<^verbatim>\<open>bioptim/limits/multinode_constraint.py\<close>. Python objects that
  the code mutates (controllers, links, pools) are records that each function takes and
  returns; every \<^verbatim>\<open>raise\<close> is a value of the type \<open>error\<close>.
\<close>

subsection \<open>Failures\<close>

text \<open>
  The three \<^verbatim>\<open>ValueError\<close>s of the constructor are told apart by their message, as are
  the \<^verbatim>\<open>RuntimeError\<close>s of the list and of the function library. \<open>UnpackError\<close> is the
  failure of \<^verbatim>\<open>pre, post = controllers\<close> on a sequence that has not two elements,
  \<open>IndexError\<close> the one of \<^verbatim>\<open>controllers[0]\<close> on an empty sequence, \<open>KeyError\<close> the one of
  \<^verbatim>\<open>states[key]\<close> on a name that is not a variable, \<open>IndexOutOfBounds\<close> the one of
  indexing a CasADi vector outside of its rows, and \<open>TypeError\<close> the one of a call that gets
  one keyword argument twice.
\<close>

datatype error =
    ValueError_node
  | ValueError_phase
  | ValueError_length
  | InvalidPhaseReference
  | ShapeMismatch
  | MissingTimeParameter
  | UnpackError
  | IndexError
  | KeyError
  | IndexOutOfBounds
  | TypeError


subsection \<open>Controllers\<close>

text \<open>
  \<^verbatim>\<open>PenaltyController\<close> is consumed through its interface only. A variable's \<^verbatim>\<open>cx\<close> is
  read through the controller's \<^verbatim>\<open>cx_index_to_get\<close> (the docstring of
  \<^verbatim>\<open>_prepare_controller_cx\<close>: ``it increments a counter of the cx used''), so a variable is
  a column vector for each value of that counter. A column vector is the list of its rows;
  the entries of the parameter vector carry their names.
\<close>

type_synonym 'a variable = "nat \<Rightarrow> 'a list"

record 'a controller =
  phase_idx :: int
  cx_index_to_get :: nat
  states :: "string \<Rightarrow> 'a variable option"
  controls :: "string \<Rightarrow> 'a variable option"
  parameters :: "(string \<times> 'a) list"

text \<open>
  \<^verbatim>\<open>
  existing_phases = []
  for controller in controllers:
      controller.cx_index_to_get = sum([i == controller.phase_idx for i in existing_phases])
      existing_phases.append(controller.phase_idx)
  \<close>
\<close>

fun prepare_controller_cx_loop :: "int list \<Rightarrow> 'a controller list \<Rightarrow> 'a controller list" where
  "prepare_controller_cx_loop existing_phases [] = []"
| "prepare_controller_cx_loop existing_phases (controller # rest) =
     controller\<lparr>cx_index_to_get := length (filter (\<lambda>i. i = phase_idx controller) existing_phases)\<rparr>
       # prepare_controller_cx_loop (existing_phases @ [phase_idx controller]) rest"

definition prepare_controller_cx :: "'a controller list \<Rightarrow> 'a controller list" where
  "prepare_controller_cx controllers = prepare_controller_cx_loop [] controllers"

subsection \<open>Phase-duration equality\<close>

text \<open>Python's \<^verbatim>\<open>str\<close> on an integer: its decimal digits, after a minus sign when negative.\<close>

definition digit_char :: "nat \<Rightarrow> char" where
  "digit_char d = ''0123456789'' ! d"

fun str_nat :: "nat \<Rightarrow> string" where
  "str_nat n = (if n < 10 then [digit_char n] else str_nat (n div 10) @ [digit_char (n mod 10)])"

definition str_int :: "int \<Rightarrow> string" where
  "str_int i = (if i < 0 then CHR ''-'' # str_nat (nat (- i)) else str_nat (nat i))"

text \<open>
  \<^verbatim>\<open>
  for i in range(pre.parameters.cx.shape[0]):
      param_name = pre.parameters.cx[i].name()
      if param_name == "time_phase_" + str(pre.phase_idx):
          time_pre_idx = pre.phase_idx
  \<close>
  The loop walks the entries of the parameter vector; on a match it stores the phase
  index (not the position \<^verbatim>\<open>i\<close>).
\<close>

fun time_idx_loop :: "int \<Rightarrow> (string \<times> 'a) list \<Rightarrow> int option \<Rightarrow> int option" where
  "time_idx_loop p [] time_idx = time_idx"
| "time_idx_loop p (param # rest) time_idx =
     time_idx_loop p rest
       (if fst param = ''time_phase_'' @ str_int p then Some p else time_idx)"

text \<open>
  \<^verbatim>\<open>parameters.cx[k]\<close>: CasADi counts a negative index from the end and fails outside of
  the rows.
\<close>

definition cx_getitem :: "(string \<times> 'a) list \<Rightarrow> int \<Rightarrow> error + 'a" where
  "cx_getitem cx k =
     (let n = int (length cx) in
      if 0 \<le> k \<and> k < n then Inr (snd (cx ! nat k))
      else if - n \<le> k \<and> k < 0 then Inr (snd (cx ! nat (n + k)))
      else Inl IndexOutOfBounds)"

text \<open>
  \<open>time_equality\<close> reads nothing of its constraint. It returns the controllers as
  \<open>prepare_controller_cx\<close> left them and the residual or the failure.
\<close>

definition time_equality ::
  "'l \<Rightarrow> 'a::minus controller list \<Rightarrow> 'a controller list \<times> (error + 'a)" where
  "time_equality constraint controllers =
     (let cs = prepare_controller_cx controllers in
      (cs,
       case cs of
         [pre, post] \<Rightarrow>
           (case time_idx_loop (phase_idx pre) (parameters pre) None of
              None \<Rightarrow> Inl MissingTimeParameter
            | Some time_pre_idx \<Rightarrow>
                (case time_idx_loop (phase_idx post) (parameters post) None of
                   None \<Rightarrow> Inl MissingTimeParameter
                 | Some time_post_idx \<Rightarrow>
                     (case cx_getitem (parameters pre) time_pre_idx of
                        Inl e \<Rightarrow> Inl e
                      | Inr time_pre \<Rightarrow>
                          (case cx_getitem (parameters post) time_post_idx of
                             Inl e \<Rightarrow> Inl e
                           | Inr time_post \<Rightarrow> Inr (time_pre - time_post)))))
       | _ \<Rightarrow> Inl UnpackError))"

subsection \<open>State and control equality\<close>

text \<open>
  \<^verbatim>\<open>constraint.states_mapping\<close> is all that the two functions read of the constraint: its
  two projections, taken as given. The shape of a column vector is its number of rows and
  one column.
\<close>

record 'a states_mapping =
  to_first :: "'a list \<Rightarrow> 'a list"
  to_second :: "'a list \<Rightarrow> 'a list"

definition shape :: "'a list \<Rightarrow> nat \<times> nat" where
  "shape v = (length v, 1)"

definition zeros :: "nat \<times> nat \<Rightarrow> 'a::zero list" where
  "zeros s = replicate (fst s * snd s) 0"

definition vec_minus :: "'a::minus list \<Rightarrow> 'a list \<Rightarrow> 'a list" where
  "vec_minus u v = map2 (\<lambda>x y. x - y) u v"

definition vec_plus :: "'a::plus list \<Rightarrow> 'a list \<Rightarrow> 'a list" where
  "vec_plus u v = map2 (\<lambda>x y. x + y) u v"

text \<open>
  \<^verbatim>\<open>
  for i in range(1, len(controllers)):
      ctrl_i = controllers[i]
      states_i = constraint.states_mapping.to_first.map(ctrl_i.states[key].cx)
      if states_0.shape != states_i.shape:
          raise RuntimeError(...)
      out += states_0 - states_i
  \<close>
\<close>

fun states_equality_loop ::
  "'a::{plus,minus} states_mapping \<Rightarrow> string \<Rightarrow> 'a list \<Rightarrow> 'a controller list \<Rightarrow> 'a list
     \<Rightarrow> error + 'a list" where
  "states_equality_loop m key states_0 [] out = Inr out"
| "states_equality_loop m key states_0 (ctrl_i # rest) out =
     (case states ctrl_i key of
        None \<Rightarrow> Inl KeyError
      | Some var \<Rightarrow>
          (let states_i = to_first m (var (cx_index_to_get ctrl_i)) in
           if shape states_0 \<noteq> shape states_i then Inl ShapeMismatch
           else states_equality_loop m key states_0 rest
                  (vec_plus out (vec_minus states_0 states_i))))"

definition states_equality ::
  "'a::{zero,plus,minus} states_mapping \<Rightarrow> 'a controller list \<Rightarrow> string
     \<Rightarrow> 'a controller list \<times> (error + 'a list)" where
  "states_equality m controllers key =
     (let cs = prepare_controller_cx controllers in
      (cs,
       case cs of
         [] \<Rightarrow> Inl IndexError
       | ctrl_0 # rest \<Rightarrow>
           (case states ctrl_0 key of
              None \<Rightarrow> Inl KeyError
            | Some var \<Rightarrow>
                (let states_0 = to_second m (var (cx_index_to_get ctrl_0));
                     out = zeros (shape states_0)
                 in states_equality_loop m key states_0 rest out))))"

fun controls_equality_loop ::
  "string \<Rightarrow> 'a::{plus,minus} list \<Rightarrow> 'a controller list \<Rightarrow> 'a list \<Rightarrow> error + 'a list" where
  "controls_equality_loop key controls_0 [] out = Inr out"
| "controls_equality_loop key controls_0 (ctrl_i # rest) out =
     (case controls ctrl_i key of
        None \<Rightarrow> Inl KeyError
      | Some var \<Rightarrow>
          (let controls_i = var (cx_index_to_get ctrl_i) in
           if shape controls_0 \<noteq> shape controls_i then Inl ShapeMismatch
           else controls_equality_loop key controls_0 rest
                  (vec_plus out (vec_minus controls_0 controls_i))))"

definition controls_equality ::
  "'l \<Rightarrow> 'a::{zero,plus,minus} controller list \<Rightarrow> string
     \<Rightarrow> 'a controller list \<times> (error + 'a list)" where
  "controls_equality constraint controllers key =
     (let cs = prepare_controller_cx controllers in
      (cs,
       case cs of
         [] \<Rightarrow> Inl IndexError
       | ctrl_0 # rest \<Rightarrow>
           (case controls ctrl_0 key of
              None \<Rightarrow> Inl KeyError
            | Some var \<Rightarrow>
                (let controls_0 = var (cx_index_to_get ctrl_0);
                     out = zeros (shape controls_0)
                 in controls_equality_loop key controls_0 rest out))))"

subsection \<open>Links\<close>

text \<open>
  The members of \<^verbatim>\<open>Node\<close> that this file names, and Python values as the constructor
  tells them apart: a member of \<^verbatim>\<open>Node\<close>, an \<^verbatim>\<open>int\<close> (a \<^verbatim>\<open>bool\<close> is one), or
  anything else. The first argument of the constructor is a member of
  \<^verbatim>\<open>MultinodeConstraintFcn\<close>, \<^verbatim>\<open>None\<close> or some other object, a callable as a rule.
\<close>

datatype Node = START | MID | PENULTIMATE | END | MULTINODES

datatype pyval = PyNode Node | PyInt int | PyOther

datatype MultinodeConstraintFcn =
  STATES_EQUALITY | CONTROLS_EQUALITY | CUSTOM | COM_EQUALITY | COM_VELOCITY_EQUALITY
  | TIME_CONSTRAINT

datatype 'f pyobj = PyNone | Fcn MultinodeConstraintFcn | Callable 'f

datatype penalty_base = InheritedBase | ObjectiveFunction_MayerFunction

text \<open>
  The attributes of a \<^verbatim>\<open>MultinodeConstraint\<close>. \<open>penalty\<close>, \<open>custom_function\<close> and \<open>params\<close>
  are what the constructor hands to the parent's constructor. \<open>list_index\<close> and \<open>base\<close>
  are attributes of the parent, which is not part of these sources: \<open>list_index\<close> is -1
  until a slot is allocated, \<open>base\<close> is what the parent left until the list prepares the
  link. \<open>nodes_phase\<close> holds integers: the constructor refuses anything else.
\<close>

record ('f, 'v) MultinodeConstraint =
  penalty :: "'f pyobj"
  custom_function :: "'f pyobj"
  params :: "string \<rightharpoonup> 'v"
  min_bound :: real
  max_bound :: real
  multinode_constraint :: bool
  weight :: real
  quadratic :: bool
  nodes_phase :: "int list"
  nodes :: "pyval list"
  node :: Node
  dt :: int
  node_idx :: "int list"
  list_index :: int
  base :: penalty_base

fun isinstance_Fcn :: "'f pyobj \<Rightarrow> bool" where
  "isinstance_Fcn (Fcn f) = True"
| "isinstance_Fcn _ = False"

fun isinstance_int :: "pyval \<Rightarrow> bool" where
  "isinstance_int (PyInt i) = True"
| "isinstance_int _ = False"

text \<open>\<^verbatim>\<open>node in (Node.START, Node.MID, Node.PENULTIMATE, Node.END)\<close>\<close>

fun in_markers :: "pyval \<Rightarrow> bool" where
  "in_markers (PyNode START) = True"
| "in_markers (PyNode MID) = True"
| "in_markers (PyNode PENULTIMATE) = True"
| "in_markers (PyNode END) = True"
| "in_markers _ = False"

fun ints_of :: "pyval list \<Rightarrow> int list" where
  "ints_of [] = []"
| "ints_of (PyInt i # vs) = i # ints_of vs"
| "ints_of (_ # vs) = ints_of vs"

text \<open>
  The head of the constructor:
  \<^verbatim>\<open>
  force_multinode = False
  if "force_multinode" in params:
      force_multinode = True
      del params["force_multinode"]
  if not isinstance(multinode_constraint, MultinodeConstraintFcn) and not force_multinode:
      custom_function = multinode_constraint
      multinode_constraint = MultinodeConstraintFcn.CUSTOM
  \<close>
  It returns the three arguments of the parent's constructor.
\<close>

definition init_parent_arguments ::
  "'f pyobj \<Rightarrow> 'f pyobj \<Rightarrow> (string \<rightharpoonup> 'v) \<Rightarrow> 'f pyobj \<times> 'f pyobj \<times> (string \<rightharpoonup> 'v)" where
  "init_parent_arguments multinode_constraint_arg custom_function_arg params_arg =
     (let force_multinode = (params_arg ''force_multinode'' \<noteq> None);
          params' = (if force_multinode then params_arg(''force_multinode'' := None)
                     else params_arg)
      in if \<not> isinstance_Fcn multinode_constraint_arg \<and> \<not> force_multinode
         then (Fcn CUSTOM, multinode_constraint_arg, params')
         else (multinode_constraint_arg, custom_function_arg, params'))"

text \<open>
  The call of the parent's constructor,
  \<^verbatim>\<open>
  super(Constraint, self).__init__(penalty=multinode_constraint, custom_function=custom_function, **params)
  \<close>
  The parent class is not part of these sources: \<open>parent_init\<close> stands for its constructor
  and says with which failure, if any, it ends on the three arguments. Before the parent
  runs, Python refuses the call with a \<^verbatim>\<open>TypeError\<close> when \<^verbatim>\<open>params\<close> has the key
  \<^verbatim>\<open>penalty\<close> or \<^verbatim>\<open>custom_function\<close>, which the call also gives by name.
\<close>

definition super_init ::
  "('f pyobj \<Rightarrow> 'f pyobj \<Rightarrow> (string \<rightharpoonup> 'v) \<Rightarrow> error option)
     \<Rightarrow> 'f pyobj \<times> 'f pyobj \<times> (string \<rightharpoonup> 'v) \<Rightarrow> error option" where
  "super_init parent_init args =
     (case args of
        (penalty_arg, custom_function', params') \<Rightarrow>
          if params' ''penalty'' \<noteq> None \<or> params' ''custom_function'' \<noteq> None
          then Some TypeError
          else parent_init penalty_arg custom_function' params')"

text \<open>
  The constructor: the head, the call of the parent's constructor, whose failure is the
  constructor's, then the three checks in the order of the source, then the attributes.
\<close>

definition MultinodeConstraint_init ::
  "('f pyobj \<Rightarrow> 'f pyobj \<Rightarrow> (string \<rightharpoonup> 'v) \<Rightarrow> error option)
     \<Rightarrow> pyval list \<Rightarrow> pyval list \<Rightarrow> 'f pyobj \<Rightarrow> 'f pyobj \<Rightarrow> real \<Rightarrow> real \<Rightarrow> real
     \<Rightarrow> (string \<rightharpoonup> 'v) \<Rightarrow> error + ('f, 'v) MultinodeConstraint" where
  "MultinodeConstraint_init parent_init nodes_arg nodes_phase_arg multinode_constraint_arg
       custom_function_arg min_bound_arg max_bound_arg weight_arg params_arg =
     (case init_parent_arguments multinode_constraint_arg custom_function_arg params_arg of
        (penalty_arg, custom_function', params') \<Rightarrow>
          (case super_init parent_init (penalty_arg, custom_function', params') of
             Some e \<Rightarrow> Inl e
           | None \<Rightarrow>
               if list_ex (\<lambda>node. \<not> in_markers node \<and> \<not> isinstance_int node) nodes_arg
                 then Inl ValueError_node
               else if list_ex (\<lambda>phase. \<not> isinstance_int phase) nodes_phase_arg
                 then Inl ValueError_phase
               else if length nodes_arg \<noteq> length nodes_phase_arg
                 then Inl ValueError_length
               else Inr \<lparr>penalty = penalty_arg, custom_function = custom_function',
                      params = params', min_bound = min_bound_arg, max_bound = max_bound_arg,
                      multinode_constraint = True, weight = weight_arg, quadratic = True,
                      nodes_phase = ints_of nodes_phase_arg, nodes = nodes_arg,
                      node = MULTINODES, dt = 1, node_idx = [0], list_index = - 1,
                      base = InheritedBase\<rparr>))"



subsection \<open>Pools\<close>

text \<open>
  A pool is a Python list whose slots are either \<^verbatim>\<open>[]\<close> or a penalty. The program
  (\<^verbatim>\<open>ocp\<close>) and each phase (\<^verbatim>\<open>nlp\<close>) own a constraint pool and an objective pool; the
  program also knows the number of phases.
\<close>

datatype 'p slot = EmptySlot | Penalty 'p

record 'p NonLinearProgram =
  g_internal :: "'p slot list"
  J_internal :: "'p slot list"

record 'p OptimalControlProgram = "'p NonLinearProgram" +
  n_phases :: int

text \<open>
  \<^verbatim>\<open>
  if self.weight == 0:
      g_to_add_to = nlp.g_internal if nlp else ocp.g_internal
  else:
      g_to_add_to = nlp.J_internal if nlp else ocp.J_internal
  \<close>
  \<open>pool_of\<close> reads the list that this selects, \<open>pool_update\<close> writes to it.
\<close>

definition pool_of ::
  "real \<Rightarrow> 'p OptimalControlProgram \<Rightarrow> 'p NonLinearProgram option \<Rightarrow> 'p slot list" where
  "pool_of w ocp nlp =
     (if w = 0 then (case nlp of Some n \<Rightarrow> g_internal n | None \<Rightarrow> g_internal ocp)
      else (case nlp of Some n \<Rightarrow> J_internal n | None \<Rightarrow> J_internal ocp))"

definition pool_update ::
  "real \<Rightarrow> 'p slot list \<Rightarrow> 'p OptimalControlProgram \<Rightarrow> 'p NonLinearProgram option
     \<Rightarrow> 'p OptimalControlProgram \<times> 'p NonLinearProgram option" where
  "pool_update w pool ocp nlp =
     (if w = 0
      then (case nlp of Some n \<Rightarrow> (ocp, Some (n\<lparr>g_internal := pool\<rparr>))
            | None \<Rightarrow> (ocp\<lparr>g_internal := pool\<rparr>, None))
      else (case nlp of Some n \<Rightarrow> (ocp, Some (n\<lparr>J_internal := pool\<rparr>))
            | None \<Rightarrow> (ocp\<lparr>J_internal := pool\<rparr>, None)))"

text \<open>
  \<^verbatim>\<open>
  for i, j in enumerate(g_to_add_to):
      if not j:
          self.list_index = i
          return
  \<close>
\<close>

fun first_empty :: "nat \<Rightarrow> 'p slot list \<Rightarrow> nat option" where
  "first_empty i [] = None"
| "first_empty i (j # rest) =
     (case j of EmptySlot \<Rightarrow> Some i | Penalty p \<Rightarrow> first_empty (Suc i) rest)"

text \<open>
  \<^verbatim>\<open>
  while self.list_index >= len(g_to_add_to):
      g_to_add_to.append([])
  \<close>
\<close>

function grow_pool :: "int \<Rightarrow> 'p slot list \<Rightarrow> 'p slot list" where
  "grow_pool idx pool =
     (if idx \<ge> int (length pool) then grow_pool idx (pool @ [EmptySlot]) else pool)"
  by pat_completeness auto
termination
  by (relation "measure (\<lambda>(idx, pool). nat (idx + 1 - int (length pool)))") auto

declare grow_pool.simps [simp del]

definition ensure_penalty_sanity ::
  "('f, 'v, 'z) MultinodeConstraint_scheme \<Rightarrow> 'p OptimalControlProgram
     \<Rightarrow> 'p NonLinearProgram option
     \<Rightarrow> ('f, 'v, 'z) MultinodeConstraint_scheme \<times> 'p OptimalControlProgram
         \<times> 'p NonLinearProgram option" where
  "ensure_penalty_sanity self ocp nlp =
     (let g_to_add_to = pool_of (weight self) ocp nlp in
      if list_index self < 0 then
        (case first_empty 0 g_to_add_to of
           Some i \<Rightarrow> (self\<lparr>list_index := int i\<rparr>, ocp, nlp)
         | None \<Rightarrow>
             (let g' = g_to_add_to @ [EmptySlot] in
              (self\<lparr>list_index := int (length g') - 1\<rparr>, pool_update (weight self) g' ocp nlp)))
      else
        (let g' = grow_pool (list_index self) g_to_add_to;
             g'' = g'[nat (list_index self) := EmptySlot]
         in (self, pool_update (weight self) g'' ocp nlp)))"

subsection \<open>The list of links\<close>

text \<open>
  \<^verbatim>\<open>
  full_phase_multinode_constraint = []
  for mnc in self:
      for phase in mnc.nodes_phase:
          if phase < 0 or phase >= ocp.n_phases:
              raise RuntimeError(...)
      if mnc.weight:
          mnc.base = ObjectiveFunction.MayerFunction
      full_phase_multinode_constraint.append(mnc)
  return full_phase_multinode_constraint
  \<close>
  The links are objects that the loop changes in place, so the function returns, with its
  result or failure, the links of the list as it leaves them, and the program, which it
  only reads.
\<close>

fun prepare_loop ::
  "int \<Rightarrow> ('f, 'v) MultinodeConstraint list \<Rightarrow> ('f, 'v) MultinodeConstraint list
     \<Rightarrow> ('f, 'v) MultinodeConstraint list \<times> (error + ('f, 'v) MultinodeConstraint list)" where
  "prepare_loop n [] full_phase_multinode_constraint = ([], Inr full_phase_multinode_constraint)"
| "prepare_loop n (mnc # rest) full_phase_multinode_constraint =
     (if list_ex (\<lambda>phase. phase < 0 \<or> phase \<ge> n) (nodes_phase mnc)
      then (mnc # rest, Inl InvalidPhaseReference)
      else
        (let mnc' = (if weight mnc \<noteq> 0 then mnc\<lparr>base := ObjectiveFunction_MayerFunction\<rparr>
                     else mnc)
         in case prepare_loop n rest (full_phase_multinode_constraint @ [mnc']) of
              (rest', result) \<Rightarrow> (mnc' # rest', result)))"

definition prepare_multinode_constraints ::
  "('f, 'v) MultinodeConstraint list \<Rightarrow> 'p OptimalControlProgram
     \<Rightarrow> ('f, 'v) MultinodeConstraint list \<times> 'p OptimalControlProgram
         \<times> (error + ('f, 'v) MultinodeConstraint list)" where
  "prepare_multinode_constraints self ocp =
     (case prepare_loop (n_phases ocp) self [] of (self', result) \<Rightarrow> (self', ocp, result))"

section \<open>Properties\<close>

subsection \<open>Occurrence disambiguation\<close>

lemma prepare_controller_cx_loop_length:
  "length (prepare_controller_cx_loop ps cs) = length cs"
  by (induction cs arbitrary: ps) simp_all

lemma prepare_controller_cx_loop_nth:
  "i < length cs \<Longrightarrow>
   prepare_controller_cx_loop ps cs ! i =
     (cs ! i)\<lparr>cx_index_to_get :=
        length (filter (\<lambda>p. p = phase_idx (cs ! i)) (ps @ map phase_idx (take i cs)))\<rparr>"
proof (induction cs arbitrary: ps i)
  case Nil
  then show ?case by simp
next
  case (Cons c cs)
  show ?case
  proof (cases i)
    case 0
    then show ?thesis by simp
  next
    case (Suc k)
    with Cons.prems have "k < length cs" by simp
    from Cons.IH [OF this, of "ps @ [phase_idx c]"] Suc show ?thesis by simp
  qed
qed

text \<open>
  Claim C8. After \<open>prepare_controller_cx\<close> the sequence has the same length, and its
  \<open>i\<close>-th controller is the \<open>i\<close>-th controller given with its occurrence index set to the
  number of controllers before position \<open>i\<close> that have its phase index. Two controllers of
  one phase get 0 then 1; two controllers of distinct phases both get 0.
\<close>

theorem prepare_controller_cx_occurrence:
  "length (prepare_controller_cx cs) = length cs \<and>
   (\<forall>i < length cs.
      prepare_controller_cx cs ! i =
        (cs ! i)\<lparr>cx_index_to_get :=
           length (filter (\<lambda>c. phase_idx c = phase_idx (cs ! i)) (take i cs))\<rparr>) \<and>
   (phase_idx a = phase_idx b \<longrightarrow>
      map cx_index_to_get (prepare_controller_cx [a, b]) = [0, 1]) \<and>
   (phase_idx a \<noteq> phase_idx b \<longrightarrow>
      map cx_index_to_get (prepare_controller_cx [a, b]) = [0, 0])"
proof -
  have len: "length (prepare_controller_cx cs) = length cs"
    by (simp add: prepare_controller_cx_def prepare_controller_cx_loop_length)
  have nth: "prepare_controller_cx cs ! i =
      (cs ! i)\<lparr>cx_index_to_get :=
         length (filter (\<lambda>c. phase_idx c = phase_idx (cs ! i)) (take i cs))\<rparr>"
    if "i < length cs" for i
    using prepare_controller_cx_loop_nth [OF that, of "[]"]
    by (simp add: prepare_controller_cx_def filter_map comp_def)
  have two: "map cx_index_to_get (prepare_controller_cx [a, b]) =
      [0, if phase_idx a = phase_idx b then 1 else 0]"
    by (simp add: prepare_controller_cx_def)
  from len nth two show ?thesis by simp
qed

theorem prepare_controller_cx_occurrence_witness:
  "map cx_index_to_get (prepare_controller_cx
     [\<lparr>phase_idx = 2, cx_index_to_get = 0, states = (\<lambda>k. None), controls = (\<lambda>k. None),
        parameters = ([] :: (string \<times> int) list)\<rparr>,
      \<lparr>phase_idx = 2, cx_index_to_get = 0, states = (\<lambda>k. None), controls = (\<lambda>k. None),
        parameters = []\<rparr>]) = [0, 1] \<and>
   map cx_index_to_get (prepare_controller_cx
     [\<lparr>phase_idx = 0, cx_index_to_get = 0, states = (\<lambda>k. None), controls = (\<lambda>k. None),
        parameters = ([] :: (string \<times> int) list)\<rparr>,
      \<lparr>phase_idx = 1, cx_index_to_get = 0, states = (\<lambda>k. None), controls = (\<lambda>k. None),
        parameters = []\<rparr>]) = [0, 0] \<and>
   cx_index_to_get (prepare_controller_cx
     [\<lparr>phase_idx = 2, cx_index_to_get = 0, states = (\<lambda>k. None), controls = (\<lambda>k. None),
        parameters = ([] :: (string \<times> int) list)\<rparr>,
      \<lparr>phase_idx = 2, cx_index_to_get = 0, states = (\<lambda>k. None), controls = (\<lambda>k. None),
        parameters = []\<rparr>] ! 1) = 1"
proof -
  let ?p = "\<lparr>phase_idx = 2, cx_index_to_get = 0, states = (\<lambda>k. None), controls = (\<lambda>k. None),
        parameters = ([] :: (string \<times> int) list)\<rparr>"
  let ?q = "\<lparr>phase_idx = 0, cx_index_to_get = 0, states = (\<lambda>k. None), controls = (\<lambda>k. None),
        parameters = ([] :: (string \<times> int) list)\<rparr>"
  let ?r = "\<lparr>phase_idx = 1, cx_index_to_get = 0, states = (\<lambda>k. None), controls = (\<lambda>k. None),
        parameters = ([] :: (string \<times> int) list)\<rparr>"
  from prepare_controller_cx_occurrence [of "[?p, ?p]" ?p ?p]
  have same: "map cx_index_to_get (prepare_controller_cx [?p, ?p]) = [0, 1]"
    and at1: "prepare_controller_cx [?p, ?p] ! 1 =
       ?p\<lparr>cx_index_to_get := length (filter (\<lambda>c. phase_idx c = phase_idx ([?p, ?p] ! 1)) (take 1 [?p, ?p]))\<rparr>"
    by simp_all
  from prepare_controller_cx_occurrence [of "[?q, ?r]" ?q ?r]
  have diff: "map cx_index_to_get (prepare_controller_cx [?q, ?r]) = [0, 0]"
    by simp
  from at1 have "cx_index_to_get (prepare_controller_cx [?p, ?p] ! 1) = 1"
    by simp
  with same diff show ?thesis by simp
qed

subsection \<open>Phase-duration equality\<close>

lemma time_idx_loop_result:
  "time_idx_loop p ps t =
     (if ''time_phase_'' @ str_int p \<in> fst ` set ps then Some p else t)"
  by (induction ps arbitrary: t) auto

lemma time_equality_missing:
  "''time_phase_'' @ str_int (phase_idx pre) \<notin> fst ` set (parameters pre) \<or>
   ''time_phase_'' @ str_int (phase_idx post) \<notin> fst ` set (parameters post) \<Longrightarrow>
   snd (time_equality constraint [pre, post]) = Inl MissingTimeParameter"
  by (auto simp: time_equality_def prepare_controller_cx_def time_idx_loop_result)

text \<open>
  Claim C1, at a failing input. The first controller is of phase 0 and its parameters are
  \<open>mass = 5\<close> and \<open>time_phase_0 = 2\<close>; the second is of phase 1 and its parameters are
  \<open>time_phase_1 = 2\<close> and \<open>gravity = 9\<close>. Both time parameters are present and equal, and
  the residual is \<open>5 - 9\<close>: the entries at the positions 0 and 1, the phase indices, not
  the entries that were located by name.
\<close>

theorem time_equality_reads_entry_at_phase_idx:
  "snd (time_equality ()
     [\<lparr>phase_idx = 0, cx_index_to_get = 0, states = (\<lambda>k. None), controls = (\<lambda>k. None),
        parameters = [(''mass'', 5 :: int), (''time_phase_0'', 2)]\<rparr>,
      \<lparr>phase_idx = 1, cx_index_to_get = 0, states = (\<lambda>k. None), controls = (\<lambda>k. None),
        parameters = [(''time_phase_1'', 2 :: int), (''gravity'', 9)]\<rparr>]) = Inr (- 4) \<and>
   map_of [(''mass'', 5 :: int), (''time_phase_0'', 2)] (''time_phase_'' @ str_int 0) = Some 2 \<and>
   map_of [(''time_phase_1'', 2 :: int), (''gravity'', 9)] (''time_phase_'' @ str_int 1) = Some 2"
  by (simp add: time_equality_def prepare_controller_cx_def str_int_def digit_char_def
      cx_getitem_def)

subsection \<open>State and control equality\<close>

lemma prepare_nth:
  "i < length cs \<Longrightarrow> \<exists>k. prepare_controller_cx cs ! i = (cs ! i)\<lparr>cx_index_to_get := k\<rparr>"
  unfolding prepare_controller_cx_def
  using prepare_controller_cx_loop_nth [of i cs "[]"] by blast

lemma prepare_length: "length (prepare_controller_cx cs) = length cs"
  by (simp add: prepare_controller_cx_def prepare_controller_cx_loop_length)

lemma prepare_states: "i < length cs \<Longrightarrow> states (prepare_controller_cx cs ! i) = states (cs ! i)"
  using prepare_nth [of i cs] by auto

lemma prepare_controls: "i < length cs \<Longrightarrow> controls (prepare_controller_cx cs ! i) = controls (cs ! i)"
  using prepare_nth [of i cs] by auto

lemma vec_zero: "length (x::'a::group_add list) = n \<Longrightarrow> vec_plus (replicate n 0) (vec_minus x x) = replicate n 0"
  unfolding vec_plus_def vec_minus_def
  by (induction x arbitrary: n) auto

lemma states_loop_zero:
  "(\<forall>c\<in>set rest. \<exists>v. states c key = Some v \<and> to_first m (v (cx_index_to_get c)) = x) \<Longrightarrow>
   states_equality_loop m key x rest (replicate (length x) (0::'a::group_add)) = Inr (replicate (length x) 0)"
  by (induction rest) (auto simp: shape_def vec_zero)

lemma states_loop_mismatch:
  "\<forall>c\<in>set rest. states c key \<noteq> None \<Longrightarrow>
   \<exists>c\<in>set rest. \<exists>v. states c key = Some v \<and> shape s0 \<noteq> shape (to_first m (v (cx_index_to_get c))) \<Longrightarrow>
   states_equality_loop m key s0 rest out = Inl ShapeMismatch"
proof (induction rest arbitrary: out)
  case Nil
  then show ?case by simp
next
  case (Cons a rest)
  from Cons.prems(1) obtain w where w: "states a key = Some w" by auto
  show ?case
  proof (cases "shape s0 = shape (to_first m (w (cx_index_to_get a)))")
    case False
    with w show ?thesis by simp
  next
    case True
    with Cons.prems(2) w
    have "\<exists>c\<in>set rest. \<exists>v. states c key = Some v \<and> shape s0 \<noteq> shape (to_first m (v (cx_index_to_get c)))"
      by auto
    moreover from Cons.prems(1) have "\<forall>c\<in>set rest. states c key \<noteq> None" by simp
    ultimately have "states_equality_loop m key s0 rest
        (vec_plus out (vec_minus s0 (to_first m (w (cx_index_to_get a))))) = Inl ShapeMismatch"
      by (rule Cons.IH [rotated])
    with w True show ?thesis by simp
  qed
qed

lemma controls_loop_mismatch:
  "\<forall>c\<in>set rest. controls c key \<noteq> None \<Longrightarrow>
   \<exists>c\<in>set rest. \<exists>v. controls c key = Some v \<and> shape s0 \<noteq> shape (v (cx_index_to_get c)) \<Longrightarrow>
   controls_equality_loop key s0 rest out = Inl ShapeMismatch"
proof (induction rest arbitrary: out)
  case Nil
  then show ?case by simp
next
  case (Cons a rest)
  from Cons.prems(1) obtain w where w: "controls a key = Some w" by auto
  show ?case
  proof (cases "shape s0 = shape (w (cx_index_to_get a))")
    case False
    with w show ?thesis by simp
  next
    case True
    with Cons.prems(2) w
    have "\<exists>c\<in>set rest. \<exists>v. controls c key = Some v \<and> shape s0 \<noteq> shape (v (cx_index_to_get c))"
      by auto
    moreover from Cons.prems(1) have "\<forall>c\<in>set rest. controls c key \<noteq> None" by simp
    ultimately have "controls_equality_loop key s0 rest
        (vec_plus out (vec_minus s0 (w (cx_index_to_get a)))) = Inl ShapeMismatch"
      by (rule Cons.IH [rotated])
    with w True show ?thesis by simp
  qed
qed

text \<open>
  Claim C6. For two or more controllers that all have the variable \<open>key\<close>, when
  \<open>to_second\<close> of the first controller's states and \<open>to_first\<close> of the states of each
  later controller are one and the same vector \<open>x\<close> (equal shape, equal values), state
  equality returns the zero vector of the shape of \<open>x\<close>.
\<close>

theorem states_equality_zero:
  fixes x :: "'a::group_add list"
  assumes len: "2 \<le> length controllers"
    and eq: "\<forall>i<length controllers. \<exists>v. states (controllers ! i) key = Some v \<and>
           (if i = 0 then to_second m else to_first m)
             (v (cx_index_to_get (prepare_controller_cx controllers ! i))) = x"
  shows "states_equality m controllers key =
           (prepare_controller_cx controllers, Inr (replicate (length x) 0))"
proof -
  define cs where "cs = prepare_controller_cx controllers"
  have l: "length cs = length controllers" by (simp add: cs_def prepare_length)
  with len obtain c0 rest where cs: "cs = c0 # rest" by (cases cs) auto
  have st: "states (cs ! i) = states (controllers ! i)" if "i < length controllers" for i
    using that by (simp add: cs_def prepare_states)
  have "0 < length controllers" using len by linarith
  from eq [rule_format, OF this] st [OF this] obtain v0 where v0: "states c0 key = Some v0"
      "to_second m (v0 (cx_index_to_get c0)) = x"
    by (auto simp: cs cs_def [symmetric])
  have rest: "\<forall>c\<in>set rest. \<exists>v. states c key = Some v \<and> to_first m (v (cx_index_to_get c)) = x"
  proof
    fix c assume "c \<in> set rest"
    then obtain j where j: "j < length rest" "rest ! j = c" by (auto simp: in_set_conv_nth)
    then have "Suc j < length controllers" using l cs by simp
    from eq [rule_format, OF this] st [OF this] j show "\<exists>v. states c key = Some v \<and> to_first m (v (cx_index_to_get c)) = x"
      by (auto simp: cs cs_def [symmetric])
  qed
  show ?thesis
    using v0 states_loop_zero [OF rest]
    by (simp add: states_equality_def cs_def [symmetric] cs shape_def zeros_def)
qed


text \<open>
  Claim C7. When every controller has the variable \<open>key\<close> and the shape of the mapped
  states of the first controller differs from the shape of the mapped states of a later
  controller, state equality fails with \<open>ShapeMismatch\<close>; control equality fails the same
  way when the shapes of the controls themselves differ, no mapping being applied.
\<close>

theorem equality_shape_mismatch:
  "((\<forall>j<length cs. states (cs ! j) key = Some (vs j)) \<and> 0 < i \<and> i < length cs \<and>
     shape (to_second m (vs 0 (cx_index_to_get (prepare_controller_cx cs ! 0)))) \<noteq>
     shape (to_first m (vs i (cx_index_to_get (prepare_controller_cx cs ! i))))
    \<longrightarrow> snd (states_equality m cs key) = Inl ShapeMismatch) \<and>
   ((\<forall>j<length cs. controls (cs ! j) key = Some (us j)) \<and> 0 < i \<and> i < length cs \<and>
     shape (us 0 (cx_index_to_get (prepare_controller_cx cs ! 0))) \<noteq>
     shape (us i (cx_index_to_get (prepare_controller_cx cs ! i)))
    \<longrightarrow> snd (controls_equality constraint cs key) = Inl ShapeMismatch)"
proof (intro conjI impI)
  define ps where "ps = prepare_controller_cx cs"
  have l: "length ps = length cs" by (simp add: ps_def prepare_length)
  {
    assume h: "(\<forall>j<length cs. states (cs ! j) key = Some (vs j)) \<and> 0 < i \<and> i < length cs \<and>
       shape (to_second m (vs 0 (cx_index_to_get (prepare_controller_cx cs ! 0)))) \<noteq>
       shape (to_first m (vs i (cx_index_to_get (prepare_controller_cx cs ! i))))"
    then have i: "0 < i" "i < length cs" by simp_all
    have st: "states (ps ! j) key = Some (vs j)" if "j < length cs" for j
      using that h by (simp add: ps_def prepare_states)
    from i l obtain c0 rest where ps: "ps = c0 # rest" by (cases ps) auto
    from i obtain k where k: "i = Suc k" by (cases i) auto
    with i l ps have kr: "k < length rest" by simp
    have "0 < length cs" using i by linarith
    from st [OF this] have c0: "states c0 key = Some (vs 0)" using ps by simp
    have all: "\<forall>c\<in>set rest. states c key \<noteq> None"
    proof
      fix c assume "c \<in> set rest"
      then obtain j where "j < length rest" "rest ! j = c" by (auto simp: in_set_conv_nth)
      with st [of "Suc j"] l ps show "states c key \<noteq> None" by auto
    qed
    have "rest ! k \<in> set rest" using kr by simp
    moreover have "states (rest ! k) key = Some (vs i)" using st [of i] i k ps by simp
    moreover have "shape (to_second m (vs 0 (cx_index_to_get c0))) \<noteq>
        shape (to_first m (vs i (cx_index_to_get (rest ! k))))"
      using h k ps by (simp add: ps_def [symmetric])
    ultimately have ex: "\<exists>c\<in>set rest. \<exists>v. states c key = Some v \<and>
        shape (to_second m (vs 0 (cx_index_to_get c0))) \<noteq> shape (to_first m (v (cx_index_to_get c)))"
      by blast
    show "snd (states_equality m cs key) = Inl ShapeMismatch"
      using c0 states_loop_mismatch [OF all ex]
      by (simp add: states_equality_def ps_def [symmetric] ps)
  }
  {
    assume h: "(\<forall>j<length cs. controls (cs ! j) key = Some (us j)) \<and> 0 < i \<and> i < length cs \<and>
       shape (us 0 (cx_index_to_get (prepare_controller_cx cs ! 0))) \<noteq>
       shape (us i (cx_index_to_get (prepare_controller_cx cs ! i)))"
    then have i: "0 < i" "i < length cs" by simp_all
    have st: "controls (ps ! j) key = Some (us j)" if "j < length cs" for j
      using that h by (simp add: ps_def prepare_controls)
    from i l obtain c0 rest where ps: "ps = c0 # rest" by (cases ps) auto
    from i obtain k where k: "i = Suc k" by (cases i) auto
    with i l ps have kr: "k < length rest" by simp
    have "0 < length cs" using i by linarith
    from st [OF this] have c0: "controls c0 key = Some (us 0)" using ps by simp
    have all: "\<forall>c\<in>set rest. controls c key \<noteq> None"
    proof
      fix c assume "c \<in> set rest"
      then obtain j where "j < length rest" "rest ! j = c" by (auto simp: in_set_conv_nth)
      with st [of "Suc j"] l ps show "controls c key \<noteq> None" by auto
    qed
    have "rest ! k \<in> set rest" using kr by simp
    moreover have "controls (rest ! k) key = Some (us i)" using st [of i] i k ps by simp
    moreover have "shape (us 0 (cx_index_to_get c0)) \<noteq> shape (us i (cx_index_to_get (rest ! k)))"
      using h k ps by (simp add: ps_def [symmetric])
    ultimately have ex: "\<exists>c\<in>set rest. \<exists>v. controls c key = Some v \<and>
        shape (us 0 (cx_index_to_get c0)) \<noteq> shape (v (cx_index_to_get c))"
      by blast
    show "snd (controls_equality constraint cs key) = Inl ShapeMismatch"
      using c0 controls_loop_mismatch [OF all ex]
      by (simp add: controls_equality_def ps_def [symmetric] ps)
  }
qed


theorem states_equality_zero_witness:
  "states_equality \<lparr>to_first = (\<lambda>v. v), to_second = take 1\<rparr>
     [\<lparr>phase_idx = 0, cx_index_to_get = 0, states = (\<lambda>k. if k = ''all'' then Some (\<lambda>n. [7, 3]) else None),
        controls = (\<lambda>k. None), parameters = []\<rparr>,
      \<lparr>phase_idx = 1, cx_index_to_get = 0, states = (\<lambda>k. if k = ''all'' then Some (\<lambda>n. [7]) else None),
        controls = (\<lambda>k. None), parameters = []\<rparr>] ''all'' =
   (prepare_controller_cx
     [\<lparr>phase_idx = 0, cx_index_to_get = 0, states = (\<lambda>k. if k = ''all'' then Some (\<lambda>n. [7, 3]) else None),
        controls = (\<lambda>k. None), parameters = []\<rparr>,
      \<lparr>phase_idx = 1, cx_index_to_get = 0, states = (\<lambda>k. if k = ''all'' then Some (\<lambda>n. [7]) else None),
        controls = (\<lambda>k. None), parameters = []\<rparr>], Inr [0 :: int])"
proof -
  let ?a = "\<lparr>phase_idx = 0, cx_index_to_get = 0, states = (\<lambda>k. if k = ''all'' then Some (\<lambda>n. [7, 3 :: int]) else None),
        controls = (\<lambda>k. None), parameters = []\<rparr>"
  let ?b = "\<lparr>phase_idx = 1, cx_index_to_get = 0, states = (\<lambda>k. if k = ''all'' then Some (\<lambda>n. [7 :: int]) else None),
        controls = (\<lambda>k. None), parameters = []\<rparr>"
  let ?m = "\<lparr>to_first = (\<lambda>v. v), to_second = take 1\<rparr> :: int states_mapping"
  have len: "2 \<le> length [?a, ?b]" by simp
  have eq: "\<forall>i<length [?a, ?b]. \<exists>v. states ([?a, ?b] ! i) ''all'' = Some v \<and>
           (if i = 0 then to_second ?m else to_first ?m)
             (v (cx_index_to_get (prepare_controller_cx [?a, ?b] ! i))) = [7]"
    by (simp add: less_Suc_eq)
  from states_equality_zero [OF len eq] show ?thesis by simp
qed

theorem equality_shape_mismatch_witness:
  "snd (states_equality \<lparr>to_first = (\<lambda>v. v), to_second = (\<lambda>v. v)\<rparr>
     [\<lparr>phase_idx = 0, cx_index_to_get = 0, states = (\<lambda>k. if k = ''all'' then Some (\<lambda>n. [7, 3]) else None),
        controls = (\<lambda>k. if k = ''all'' then Some (\<lambda>n. [1]) else None), parameters = []\<rparr>,
      \<lparr>phase_idx = 1, cx_index_to_get = 0, states = (\<lambda>k. if k = ''all'' then Some (\<lambda>n. [7]) else None),
        controls = (\<lambda>k. if k = ''all'' then Some (\<lambda>n. [1, 1]) else None), parameters = []\<rparr>] ''all'')
     = (Inl ShapeMismatch :: error + int list) \<and>
   snd (controls_equality ()
     [\<lparr>phase_idx = 0, cx_index_to_get = 0, states = (\<lambda>k. if k = ''all'' then Some (\<lambda>n. [7, 3]) else None),
        controls = (\<lambda>k. if k = ''all'' then Some (\<lambda>n. [1]) else None), parameters = []\<rparr>,
      \<lparr>phase_idx = 1, cx_index_to_get = 0, states = (\<lambda>k. if k = ''all'' then Some (\<lambda>n. [7]) else None),
        controls = (\<lambda>k. if k = ''all'' then Some (\<lambda>n. [1, 1]) else None), parameters = []\<rparr>] ''all'')
     = (Inl ShapeMismatch :: error + int list)"
proof -
  let ?a = "\<lparr>phase_idx = 0, cx_index_to_get = 0, states = (\<lambda>k. if k = ''all'' then Some (\<lambda>n. [7, 3 :: int]) else None),
        controls = (\<lambda>k. if k = ''all'' then Some (\<lambda>n. [1]) else None), parameters = []\<rparr>"
  let ?b = "\<lparr>phase_idx = 1, cx_index_to_get = 0, states = (\<lambda>k. if k = ''all'' then Some (\<lambda>n. [7 :: int]) else None),
        controls = (\<lambda>k. if k = ''all'' then Some (\<lambda>n. [1, 1]) else None), parameters = []\<rparr>"
  let ?m = "\<lparr>to_first = (\<lambda>v. v), to_second = (\<lambda>v. v)\<rparr> :: int states_mapping"
  let ?vs = "\<lambda>j::nat. if j = 0 then (\<lambda>n::nat. [7, 3 :: int]) else (\<lambda>n. [7])"
  let ?us = "\<lambda>j::nat. if j = 0 then (\<lambda>n::nat. [1 :: int]) else (\<lambda>n. [1, 1])"
  have s: "(\<forall>j<length [?a, ?b]. states ([?a, ?b] ! j) ''all'' = Some (?vs j)) \<and> 0 < (1::nat) \<and> 1 < length [?a, ?b] \<and>
     shape (to_second ?m (?vs 0 (cx_index_to_get (prepare_controller_cx [?a, ?b] ! 0)))) \<noteq>
     shape (to_first ?m (?vs 1 (cx_index_to_get (prepare_controller_cx [?a, ?b] ! 1))))"
    by (simp add: less_Suc_eq shape_def)
  have c: "(\<forall>j<length [?a, ?b]. controls ([?a, ?b] ! j) ''all'' = Some (?us j)) \<and> 0 < (1::nat) \<and> 1 < length [?a, ?b] \<and>
     shape (?us 0 (cx_index_to_get (prepare_controller_cx [?a, ?b] ! 0))) \<noteq>
     shape (?us 1 (cx_index_to_get (prepare_controller_cx [?a, ?b] ! 1)))"
    by (simp add: less_Suc_eq shape_def)
  from equality_shape_mismatch [where cs = "[?a, ?b]" and key = "''all''" and vs = ?vs and i = 1
      and m = ?m and us = ?us and constraint = "()"] s c
  show ?thesis by blast
qed

subsection \<open>Slot allocation\<close>

lemma first_empty_None:
  "first_empty i pool = None \<longleftrightarrow> (\<forall>j<length pool. pool ! j \<noteq> EmptySlot)"
proof (induction pool arbitrary: i)
  case Nil
  then show ?case by simp
next
  case (Cons s pool)
  show ?case
  proof (cases s)
    case EmptySlot
    then show ?thesis by auto
  next
    case (Penalty p)
    then show ?thesis using Cons.IH [of "Suc i"] by (auto simp: nth_Cons split: nat.splits)
  qed
qed

lemma first_empty_Some:
  "first_empty i pool = Some r \<Longrightarrow>
   \<exists>k<length pool. r = i + k \<and> pool ! k = EmptySlot \<and> (\<forall>j<k. pool ! j \<noteq> EmptySlot)"
proof (induction pool arbitrary: i)
  case Nil
  then show ?case by simp
next
  case (Cons s pool)
  show ?case
  proof (cases s)
    case EmptySlot
    with Cons.prems show ?thesis by auto
  next
    case (Penalty p)
    with Cons.prems have "first_empty (Suc i) pool = Some r" by simp
    from Cons.IH [OF this] obtain k where k: "k < length pool" "r = Suc i + k"
      "pool ! k = EmptySlot" "\<forall>j<k. pool ! j \<noteq> EmptySlot" by blast
    have "\<forall>j<Suc k. (s # pool) ! j \<noteq> EmptySlot"
      using k(4) Penalty by (auto simp: nth_Cons split: nat.splits)
    with k show ?thesis by (intro exI [of _ "Suc k"]) simp
  qed
qed

lemma pool_of_pool_update:
  "pool_update w pool ocp nlp = (ocp', nlp') \<Longrightarrow> pool_of w ocp' nlp' = pool"
  by (auto simp: pool_update_def pool_of_def split: if_splits option.splits)

lemma grow_pool_eq:
  "grow_pool idx pool = pool @ replicate (nat (idx + 1 - int (length pool))) EmptySlot"
proof (induction idx pool rule: grow_pool.induct)
  case (1 idx pool)
  show ?case
  proof (cases "idx \<ge> int (length pool)")
    case True
    have n: "nat (idx + 1 - int (length pool)) =
        Suc (nat (idx + 1 - int (length (pool @ [EmptySlot]))))"
      using True by simp
    have "grow_pool idx pool = grow_pool idx (pool @ [EmptySlot])"
      using True by (subst grow_pool.simps) simp
    also have "\<dots> = (pool @ [EmptySlot]) @
        replicate (nat (idx + 1 - int (length (pool @ [EmptySlot])))) EmptySlot"
      using True by (rule "1.IH")
    also have "\<dots> = pool @ replicate (nat (idx + 1 - int (length pool))) EmptySlot"
      unfolding n by simp
    finally show ?thesis .
  next
    case False
    then show ?thesis by (subst grow_pool.simps) simp
  qed
qed

text \<open>
  Claim C2. For a link with no slot (\<open>list_index < 0\<close>), with \<open>pool\<close> the pool that its
  weight and the phase select: when slot \<open>k\<close> is empty and no slot before it is, the link
  gets the index \<open>k\<close> and neither the program nor the phase changes (nothing is appended);
  when no slot is empty, the pool gets exactly one more, empty, slot at its end and the
  link gets the index of that slot, the former length. Nothing else of the link changes.
\<close>

theorem ensure_penalty_sanity_unassigned:
  assumes neg: "list_index self < 0"
    and run: "ensure_penalty_sanity self ocp nlp = (self', ocp', nlp')"
  shows "(\<forall>k<length (pool_of (weight self) ocp nlp).
            pool_of (weight self) ocp nlp ! k = EmptySlot \<and>
            (\<forall>j<k. pool_of (weight self) ocp nlp ! j \<noteq> EmptySlot) \<longrightarrow>
            self' = self\<lparr>list_index := int k\<rparr> \<and> ocp' = ocp \<and> nlp' = nlp) \<and>
         ((\<forall>j<length (pool_of (weight self) ocp nlp).
             pool_of (weight self) ocp nlp ! j \<noteq> EmptySlot) \<longrightarrow>
            self' = self\<lparr>list_index := int (length (pool_of (weight self) ocp nlp))\<rparr> \<and>
            pool_of (weight self) ocp' nlp' = pool_of (weight self) ocp nlp @ [EmptySlot])"
proof -
  let ?pool = "pool_of (weight self) ocp nlp"
  have found: "self' = self\<lparr>list_index := int k\<rparr> \<and> ocp' = ocp \<and> nlp' = nlp"
    if k: "k < length ?pool"
      and e: "?pool ! k = EmptySlot \<and> (\<forall>j<k. ?pool ! j \<noteq> EmptySlot)" for k
  proof -
    from k e have "first_empty 0 ?pool \<noteq> None" by (auto simp: first_empty_None)
    then obtain r where r: "first_empty 0 ?pool = Some r" by auto
    from first_empty_Some [OF r] obtain k' where k': "k' < length ?pool" "r = k'"
      "?pool ! k' = EmptySlot" "\<forall>j<k'. ?pool ! j \<noteq> EmptySlot" by auto
    have "k' = k"
    proof (rule ccontr)
      assume "k' \<noteq> k"
      then consider "k' < k" | "k < k'" by linarith
      then show False using e k' by cases auto
    qed
    with r k' run neg
    show "self' = self\<lparr>list_index := int k\<rparr> \<and> ocp' = ocp \<and> nlp' = nlp"
      by (auto simp: ensure_penalty_sanity_def)
  qed
  have appended: "self' = self\<lparr>list_index := int (length ?pool)\<rparr> \<and>
      pool_of (weight self) ocp' nlp' = ?pool @ [EmptySlot]"
    if "\<forall>j<length ?pool. ?pool ! j \<noteq> EmptySlot"
  proof -
    from that have n: "first_empty 0 ?pool = None" by (simp add: first_empty_None)
    from run neg n have s: "self' = self\<lparr>list_index := int (length ?pool)\<rparr>"
      and u: "pool_update (weight self) (?pool @ [EmptySlot]) ocp nlp = (ocp', nlp')"
      by (auto simp: ensure_penalty_sanity_def Let_def)
    from s pool_of_pool_update [OF u] show ?thesis by simp
  qed
  from found appended show ?thesis by blast
qed

text \<open>
  Claim C3. For a link that has a slot (\<open>0 \<le> list_index\<close>), slot allocation leaves the link
  as it is, index included; afterwards the pool has at least \<open>list_index + 1\<close> slots (it
  has grown to that length only if it was shorter), the slot at \<open>list_index\<close> is empty, and
  every other slot that the pool had holds what it held.
\<close>

theorem ensure_penalty_sanity_assigned:
  assumes pos: "0 \<le> list_index self"
    and run: "ensure_penalty_sanity self ocp nlp = (self', ocp', nlp')"
  shows "self' = self \<and>
         list_index self' = list_index self \<and>
         list_index self + 1 \<le> int (length (pool_of (weight self) ocp' nlp')) \<and>
         length (pool_of (weight self) ocp' nlp') =
           max (length (pool_of (weight self) ocp nlp)) (nat (list_index self) + 1) \<and>
         pool_of (weight self) ocp' nlp' ! nat (list_index self) = EmptySlot \<and>
         (\<forall>j<length (pool_of (weight self) ocp nlp). j \<noteq> nat (list_index self) \<longrightarrow>
            pool_of (weight self) ocp' nlp' ! j = pool_of (weight self) ocp nlp ! j)"
proof -
  let ?pool = "pool_of (weight self) ocp nlp"
  let ?i = "nat (list_index self)"
  let ?g = "?pool @ replicate (nat (list_index self + 1 - int (length ?pool))) EmptySlot"
  from run pos have s: "self' = self"
    and u: "pool_update (weight self) (?g[?i := EmptySlot]) ocp nlp = (ocp', nlp')"
    by (auto simp: ensure_penalty_sanity_def Let_def grow_pool_eq)
  from pool_of_pool_update [OF u]
  have p: "pool_of (weight self) ocp' nlp' = ?g[?i := EmptySlot]" .
  have len: "length ?g = max (length ?pool) (?i + 1)" using pos by auto
  have i: "?i < length ?g" using len by simp
  have frame: "?g[?i := EmptySlot] ! j = ?pool ! j" if "j < length ?pool" "j \<noteq> ?i" for j
    using that by (simp add: nth_append)
  show ?thesis using s p len i frame pos by auto
qed


theorem ensure_penalty_sanity_unassigned_witness:
  "(let self = \<lparr>penalty = Fcn STATES_EQUALITY, custom_function = (PyNone :: unit pyobj),
                 params = (Map.empty :: string \<rightharpoonup> unit), min_bound = 0, max_bound = 0,
                 multinode_constraint = True, weight = 0, quadratic = True,
                 nodes_phase = [0, 1], nodes = [PyNode END, PyNode START], node = MULTINODES,
                 dt = 1, node_idx = [0], list_index = - 1, base = InheritedBase\<rparr>;
        ocp = \<lparr>g_internal = [Penalty (), EmptySlot, EmptySlot], J_internal = [], n_phases = 2\<rparr>;
        full = \<lparr>g_internal = [Penalty ()], J_internal = [], n_phases = 2\<rparr>
    in ensure_penalty_sanity self ocp None = (self\<lparr>list_index := 1\<rparr>, ocp, None) \<and>
       fst (ensure_penalty_sanity self full None) = self\<lparr>list_index := 1\<rparr> \<and>
       pool_of 0 (fst (snd (ensure_penalty_sanity self full None)))
         (snd (snd (ensure_penalty_sanity self full None))) = [Penalty (), EmptySlot])"
proof -
  let ?self = "\<lparr>penalty = Fcn STATES_EQUALITY, custom_function = (PyNone :: unit pyobj),
                 params = (Map.empty :: string \<rightharpoonup> unit), min_bound = 0, max_bound = 0,
                 multinode_constraint = True, weight = 0, quadratic = True,
                 nodes_phase = [0, 1], nodes = [PyNode END, PyNode START], node = MULTINODES,
                 dt = 1, node_idx = [0], list_index = - 1, base = InheritedBase\<rparr>"
  let ?ocp = "\<lparr>g_internal = [Penalty (), EmptySlot, EmptySlot], J_internal = [], n_phases = 2\<rparr>
    :: unit OptimalControlProgram"
  let ?full = "\<lparr>g_internal = [Penalty ()], J_internal = [], n_phases = 2\<rparr>
    :: unit OptimalControlProgram"
  have neg: "list_index ?self < 0" by simp
  have run1: "ensure_penalty_sanity ?self ?ocp None =
      (fst (ensure_penalty_sanity ?self ?ocp None),
       fst (snd (ensure_penalty_sanity ?self ?ocp None)),
       snd (snd (ensure_penalty_sanity ?self ?ocp None)))" by simp
  have run2: "ensure_penalty_sanity ?self ?full None =
      (fst (ensure_penalty_sanity ?self ?full None),
       fst (snd (ensure_penalty_sanity ?self ?full None)),
       snd (snd (ensure_penalty_sanity ?self ?full None)))" by simp
  have k: "1 < length (pool_of (weight ?self) ?ocp None)"
    "pool_of (weight ?self) ?ocp None ! 1 = EmptySlot \<and>
       (\<forall>j<1. pool_of (weight ?self) ?ocp None ! j \<noteq> EmptySlot)"
    by (simp_all add: pool_of_def)
  have none: "\<forall>j<length (pool_of (weight ?self) ?full None).
      pool_of (weight ?self) ?full None ! j \<noteq> EmptySlot"
    by (simp add: pool_of_def)
  from ensure_penalty_sanity_unassigned [OF neg run1] k
  have a: "fst (ensure_penalty_sanity ?self ?ocp None) = ?self\<lparr>list_index := int 1\<rparr> \<and>
      fst (snd (ensure_penalty_sanity ?self ?ocp None)) = ?ocp \<and>
      snd (snd (ensure_penalty_sanity ?self ?ocp None)) = None"
    by blast
  from ensure_penalty_sanity_unassigned [OF neg run2] none
  have b: "fst (ensure_penalty_sanity ?self ?full None) =
        ?self\<lparr>list_index := int (length (pool_of (weight ?self) ?full None))\<rparr> \<and>
      pool_of (weight ?self) (fst (snd (ensure_penalty_sanity ?self ?full None)))
        (snd (snd (ensure_penalty_sanity ?self ?full None))) =
      pool_of (weight ?self) ?full None @ [EmptySlot]"
    by blast
  have c: "ensure_penalty_sanity ?self ?ocp None = (?self\<lparr>list_index := 1\<rparr>, ?ocp, None)"
    using a by (simp add: prod_eq_iff)
  from b have d: "fst (ensure_penalty_sanity ?self ?full None) = ?self\<lparr>list_index := 1\<rparr> \<and>
       pool_of 0 (fst (snd (ensure_penalty_sanity ?self ?full None)))
         (snd (snd (ensure_penalty_sanity ?self ?full None))) = [Penalty (), EmptySlot]"
    by (simp add: pool_of_def)
  from c d show ?thesis unfolding Let_def by blast
qed

theorem ensure_penalty_sanity_assigned_witness:
  "(let self = \<lparr>penalty = Fcn STATES_EQUALITY, custom_function = (PyNone :: unit pyobj),
                 params = (Map.empty :: string \<rightharpoonup> unit), min_bound = 0, max_bound = 0,
                 multinode_constraint = True, weight = 0, quadratic = True,
                 nodes_phase = [0, 1], nodes = [PyNode END, PyNode START], node = MULTINODES,
                 dt = 1, node_idx = [0], list_index = 2, base = InheritedBase\<rparr>;
        ocp = \<lparr>g_internal = [Penalty (7 :: nat)], J_internal = [], n_phases = 2\<rparr>
    in fst (ensure_penalty_sanity self ocp None) = self \<and>
       length (pool_of 0 (fst (snd (ensure_penalty_sanity self ocp None)))
         (snd (snd (ensure_penalty_sanity self ocp None)))) = 3 \<and>
       pool_of 0 (fst (snd (ensure_penalty_sanity self ocp None)))
         (snd (snd (ensure_penalty_sanity self ocp None))) ! 2 = EmptySlot \<and>
       pool_of 0 (fst (snd (ensure_penalty_sanity self ocp None)))
         (snd (snd (ensure_penalty_sanity self ocp None))) ! 0 = Penalty 7)"
proof -
  let ?self = "\<lparr>penalty = Fcn STATES_EQUALITY, custom_function = (PyNone :: unit pyobj),
                 params = (Map.empty :: string \<rightharpoonup> unit), min_bound = 0, max_bound = 0,
                 multinode_constraint = True, weight = 0, quadratic = True,
                 nodes_phase = [0, 1], nodes = [PyNode END, PyNode START], node = MULTINODES,
                 dt = 1, node_idx = [0], list_index = 2, base = InheritedBase\<rparr>"
  let ?ocp = "\<lparr>g_internal = [Penalty (7 :: nat)], J_internal = [], n_phases = 2\<rparr>"
  have pos: "0 \<le> list_index ?self" by simp
  have run: "ensure_penalty_sanity ?self ?ocp None =
      (fst (ensure_penalty_sanity ?self ?ocp None),
       fst (snd (ensure_penalty_sanity ?self ?ocp None)),
       snd (snd (ensure_penalty_sanity ?self ?ocp None)))" by simp
  have z: "(0::nat) < length (pool_of (weight ?self) ?ocp None)" "(0::nat) \<noteq> nat (list_index ?self)"
    by (simp_all add: pool_of_def)
  from ensure_penalty_sanity_assigned [OF pos run] z
  have "fst (ensure_penalty_sanity ?self ?ocp None) = ?self \<and>
       length (pool_of (weight ?self) (fst (snd (ensure_penalty_sanity ?self ?ocp None)))
         (snd (snd (ensure_penalty_sanity ?self ?ocp None)))) =
         max (length (pool_of (weight ?self) ?ocp None)) (nat (list_index ?self) + 1) \<and>
       pool_of (weight ?self) (fst (snd (ensure_penalty_sanity ?self ?ocp None)))
         (snd (snd (ensure_penalty_sanity ?self ?ocp None))) ! nat (list_index ?self) = EmptySlot \<and>
       pool_of (weight ?self) (fst (snd (ensure_penalty_sanity ?self ?ocp None)))
         (snd (snd (ensure_penalty_sanity ?self ?ocp None))) ! 0 = pool_of (weight ?self) ?ocp None ! 0"
    by blast
  then show ?thesis unfolding Let_def by (simp add: pool_of_def)
qed

subsection \<open>Preparing the list of links\<close>

lemma prepare_loop_in_range:
  "\<not> list_ex (\<lambda>mnc. list_ex (\<lambda>phase. phase < 0 \<or> phase \<ge> n) (nodes_phase mnc)) links \<Longrightarrow>
   prepare_loop n links full =
     (map (\<lambda>mnc. if weight mnc \<noteq> 0 then mnc\<lparr>base := ObjectiveFunction_MayerFunction\<rparr> else mnc) links,
      Inr (full @ map (\<lambda>mnc. if weight mnc \<noteq> 0 then mnc\<lparr>base := ObjectiveFunction_MayerFunction\<rparr> else mnc) links))"
  by (induction links arbitrary: full) (simp_all add: Let_def)

lemma prepare_loop_out_of_range:
  "k < length links \<Longrightarrow>
   list_ex (\<lambda>phase. phase < 0 \<or> phase \<ge> n) (nodes_phase (links ! k)) \<Longrightarrow>
   \<forall>j<k. \<not> list_ex (\<lambda>phase. phase < 0 \<or> phase \<ge> n) (nodes_phase (links ! j)) \<Longrightarrow>
   prepare_loop n links full =
     (map (\<lambda>mnc. if weight mnc \<noteq> 0 then mnc\<lparr>base := ObjectiveFunction_MayerFunction\<rparr> else mnc)
        (take k links) @ drop k links,
      Inl InvalidPhaseReference)"
proof (induction links arbitrary: full k)
  case Nil
  then show ?case by simp
next
  case (Cons mnc rest)
  show ?case
  proof (cases k)
    case 0
    with Cons.prems show ?thesis by simp
  next
    case (Suc k')
    with Cons.prems have ok: "\<not> list_ex (\<lambda>phase. phase < 0 \<or> phase \<ge> n) (nodes_phase mnc)"
      by auto
    from Suc Cons.prems have a: "k' < length rest"
      and b: "list_ex (\<lambda>phase. phase < 0 \<or> phase \<ge> n) (nodes_phase (rest ! k'))"
      and c: "\<forall>j<k'. \<not> list_ex (\<lambda>phase. phase < 0 \<or> phase \<ge> n) (nodes_phase (rest ! j))"
      by auto
    from Cons.IH [OF a b c] ok Suc show ?thesis by (simp add: Let_def)
  qed
qed

lemma prepare_loop_Cons_snd:
  "\<not> list_ex (\<lambda>phase. phase < 0 \<or> phase \<ge> n) (nodes_phase mnc) \<Longrightarrow>
   snd (prepare_loop n (mnc # rest) full) =
     snd (prepare_loop n rest
       (full @ [if weight mnc \<noteq> 0 then mnc\<lparr>base := ObjectiveFunction_MayerFunction\<rparr> else mnc]))"
  by (simp add: Let_def split: prod.splits)

lemma prepare_loop_error_kind:
  "snd (prepare_loop n links full) = Inl e \<Longrightarrow>
   e = InvalidPhaseReference \<and>
   list_ex (\<lambda>mnc. list_ex (\<lambda>phase. phase < 0 \<or> phase \<ge> n) (nodes_phase mnc)) links"
proof (induction links arbitrary: full)
  case Nil
  then show ?case by simp
next
  case (Cons mnc rest)
  show ?case
  proof (cases "list_ex (\<lambda>phase. phase < 0 \<or> phase \<ge> n) (nodes_phase mnc)")
    case True
    with Cons.prems show ?thesis by auto
  next
    case False
    from Cons.prems have "snd (prepare_loop n rest
       (full @ [if weight mnc \<noteq> 0 then mnc\<lparr>base := ObjectiveFunction_MayerFunction\<rparr> else mnc])) = Inl e"
      unfolding prepare_loop_Cons_snd [OF False] .
    from Cons.IH [OF this] show ?thesis by simp
  qed
qed

lemma prepare_loop_error:
  "list_ex (\<lambda>mnc. list_ex (\<lambda>phase. phase < 0 \<or> phase \<ge> n) (nodes_phase mnc)) links \<Longrightarrow>
   snd (prepare_loop n links full) = Inl InvalidPhaseReference"
proof (induction links arbitrary: full)
  case Nil
  then show ?case by simp
next
  case (Cons mnc rest)
  show ?case
  proof (cases "list_ex (\<lambda>phase. phase < 0 \<or> phase \<ge> n) (nodes_phase mnc)")
    case True
    then show ?thesis by simp
  next
    case False
    with Cons.prems
    have "list_ex (\<lambda>mnc. list_ex (\<lambda>phase. phase < 0 \<or> phase \<ge> n) (nodes_phase mnc)) rest"
      by simp
    from Cons.IH [OF this] show ?thesis
      unfolding prepare_loop_Cons_snd [OF False] .
  qed
qed

text \<open>
  Claim C5. \<open>prepare_multinode_constraints\<close> fails with \<open>InvalidPhaseReference\<close> if and only
  if some link of the list names a phase below 0 or not below \<open>n_phases\<close>, and it fails in
  no other way. When no link does, it returns the links in the order of the list, each
  link of nonzero weight with its base set to the Mayer objective and every other link as
  it was. The program, and with it every pool, is as before in all cases.
\<close>

theorem prepare_multinode_constraints_range_check:
  "(snd (snd (prepare_multinode_constraints self ocp)) = Inl InvalidPhaseReference \<longleftrightarrow>
      (\<exists>mnc\<in>set self. \<exists>phase\<in>set (nodes_phase mnc). phase < 0 \<or> n_phases ocp \<le> phase)) \<and>
   (\<forall>e. snd (snd (prepare_multinode_constraints self ocp)) = Inl e \<longrightarrow> e = InvalidPhaseReference) \<and>
   (\<not> (\<exists>mnc\<in>set self. \<exists>phase\<in>set (nodes_phase mnc). phase < 0 \<or> n_phases ocp \<le> phase) \<longrightarrow>
      snd (snd (prepare_multinode_constraints self ocp)) =
        Inr (map (\<lambda>mnc. if weight mnc \<noteq> 0 then mnc\<lparr>base := ObjectiveFunction_MayerFunction\<rparr>
                         else mnc) self)) \<and>
   fst (snd (prepare_multinode_constraints self ocp)) = ocp"
proof -
  let ?bad = "list_ex (\<lambda>mnc. list_ex (\<lambda>phase. phase < 0 \<or> phase \<ge> n_phases ocp) (nodes_phase mnc)) self"
  have bad: "?bad \<longleftrightarrow> (\<exists>mnc\<in>set self. \<exists>phase\<in>set (nodes_phase mnc). phase < 0 \<or> n_phases ocp \<le> phase)"
    by (simp add: list_ex_iff)
  have res: "snd (snd (prepare_multinode_constraints self ocp)) = snd (prepare_loop (n_phases ocp) self [])"
    and frame: "fst (snd (prepare_multinode_constraints self ocp)) = ocp"
    by (simp_all add: prepare_multinode_constraints_def split: prod.splits)
  have kind: "e = InvalidPhaseReference \<and> ?bad"
    if "snd (prepare_loop (n_phases ocp) self []) = Inl e" for e
    using that by (rule prepare_loop_error_kind)
  have 1: "snd (prepare_loop (n_phases ocp) self []) = Inl InvalidPhaseReference \<longleftrightarrow> ?bad"
    using prepare_loop_error [of "n_phases ocp" self "[]"] kind by blast
  have 2: "e = InvalidPhaseReference" if "snd (prepare_loop (n_phases ocp) self []) = Inl e" for e
    using kind [OF that] by simp
  have 3: "snd (prepare_loop (n_phases ocp) self []) =
        Inr (map (\<lambda>mnc. if weight mnc \<noteq> 0 then mnc\<lparr>base := ObjectiveFunction_MayerFunction\<rparr>
                         else mnc) self)" if "\<not> ?bad"
    using prepare_loop_in_range [OF that, of "[]"] by simp
  from 1 2 3 show ?thesis unfolding res frame bad by blast
qed

text \<open>
  Claim C10. When the link at position \<open>k\<close> is the first that names a phase out of range,
  \<open>prepare_multinode_constraints\<close> fails with \<open>InvalidPhaseReference\<close> and leaves the list
  with the links before \<open>k\<close> already processed: each of them of nonzero weight has its
  base set to the Mayer objective. The links from \<open>k\<close> on are as they were.
\<close>

theorem prepare_multinode_constraints_not_atomic:
  assumes "k < length self"
    and "\<exists>phase\<in>set (nodes_phase (self ! k)). phase < 0 \<or> n_phases ocp \<le> phase"
    and "\<forall>j<k. \<forall>phase\<in>set (nodes_phase (self ! j)). 0 \<le> phase \<and> phase < n_phases ocp"
  shows "snd (snd (prepare_multinode_constraints self ocp)) = Inl InvalidPhaseReference \<and>
         fst (prepare_multinode_constraints self ocp) =
           map (\<lambda>mnc. if weight mnc \<noteq> 0 then mnc\<lparr>base := ObjectiveFunction_MayerFunction\<rparr>
                       else mnc) (take k self) @ drop k self \<and>
         (\<forall>j<k. weight (self ! j) \<noteq> 0 \<longrightarrow>
            fst (prepare_multinode_constraints self ocp) ! j =
              (self ! j)\<lparr>base := ObjectiveFunction_MayerFunction\<rparr>)"
proof -
  let ?mark = "\<lambda>mnc :: ('a, 'b) MultinodeConstraint.
     if weight mnc \<noteq> 0 then mnc\<lparr>base := ObjectiveFunction_MayerFunction\<rparr> else mnc"
  from assms(2) have b: "list_ex (\<lambda>phase. phase < 0 \<or> phase \<ge> n_phases ocp) (nodes_phase (self ! k))"
    by (simp add: list_ex_iff)
  from assms(3) have c: "\<forall>j<k. \<not> list_ex (\<lambda>phase. phase < 0 \<or> phase \<ge> n_phases ocp) (nodes_phase (self ! j))"
    by (fastforce simp: list_ex_iff)
  from prepare_loop_out_of_range [OF assms(1) b c, of "[]"]
  have r: "prepare_multinode_constraints self ocp =
      (map ?mark (take k self) @ drop k self, ocp, Inl InvalidPhaseReference)"
    by (simp add: prepare_multinode_constraints_def)
  have "(map ?mark (take k self) @ drop k self) ! j = (self ! j)\<lparr>base := ObjectiveFunction_MayerFunction\<rparr>"
    if "j < k" "weight (self ! j) \<noteq> 0" for j
    using that assms(1) by (simp add: nth_append)
  with r show ?thesis by simp
qed


theorem prepare_multinode_constraints_range_check_witness:
  "(let mnc = \<lparr>penalty = Fcn STATES_EQUALITY, custom_function = (PyNone :: unit pyobj),
                 params = (Map.empty :: string \<rightharpoonup> unit), min_bound = 0, max_bound = 0,
                 multinode_constraint = True, weight = 0, quadratic = True,
                 nodes_phase = [0, 1], nodes = [PyNode END, PyNode START], node = MULTINODES,
                 dt = 1, node_idx = [0], list_index = - 1, base = InheritedBase\<rparr>;
        ocp = \<lparr>g_internal = [Penalty ()], J_internal = [], n_phases = 2\<rparr>
    in snd (snd (prepare_multinode_constraints [mnc, mnc\<lparr>weight := 2\<rparr>] ocp)) =
         Inr [mnc, mnc\<lparr>weight := 2, base := ObjectiveFunction_MayerFunction\<rparr>] \<and>
       snd (snd (prepare_multinode_constraints [mnc, mnc\<lparr>nodes_phase := [0, 2]\<rparr>] ocp)) =
         Inl InvalidPhaseReference)"
proof -
  let ?mnc = "\<lparr>penalty = Fcn STATES_EQUALITY, custom_function = (PyNone :: unit pyobj),
                 params = (Map.empty :: string \<rightharpoonup> unit), min_bound = 0, max_bound = 0,
                 multinode_constraint = True, weight = 0, quadratic = True,
                 nodes_phase = [0, 1], nodes = [PyNode END, PyNode START], node = MULTINODES,
                 dt = 1, node_idx = [0], list_index = - 1, base = InheritedBase\<rparr>"
  let ?ocp = "\<lparr>g_internal = [Penalty ()], J_internal = [], n_phases = 2\<rparr>"
  have good: "\<not> (\<exists>mnc\<in>set [?mnc, ?mnc\<lparr>weight := 2\<rparr>]. \<exists>phase\<in>set (nodes_phase mnc).
      phase < 0 \<or> n_phases ?ocp \<le> phase)"
    by simp
  have bad: "\<exists>mnc\<in>set [?mnc, ?mnc\<lparr>nodes_phase := [0, 2]\<rparr>]. \<exists>phase\<in>set (nodes_phase mnc).
      phase < 0 \<or> n_phases ?ocp \<le> phase"
    by simp
  from prepare_multinode_constraints_range_check [of "[?mnc, ?mnc\<lparr>weight := 2\<rparr>]" ?ocp] good
  have a: "snd (snd (prepare_multinode_constraints [?mnc, ?mnc\<lparr>weight := 2\<rparr>] ?ocp)) =
      Inr (map (\<lambda>mnc. if weight mnc \<noteq> 0 then mnc\<lparr>base := ObjectiveFunction_MayerFunction\<rparr>
                         else mnc) [?mnc, ?mnc\<lparr>weight := 2\<rparr>])"
    by blast
  from prepare_multinode_constraints_range_check [of "[?mnc, ?mnc\<lparr>nodes_phase := [0, 2]\<rparr>]" ?ocp] bad
  have b: "snd (snd (prepare_multinode_constraints [?mnc, ?mnc\<lparr>nodes_phase := [0, 2]\<rparr>] ?ocp)) =
      Inl InvalidPhaseReference"
    by blast
  from a b show ?thesis unfolding Let_def by simp
qed

theorem prepare_multinode_constraints_not_atomic_witness:
  "(let mnc = \<lparr>penalty = Fcn STATES_EQUALITY, custom_function = (PyNone :: unit pyobj),
                 params = (Map.empty :: string \<rightharpoonup> unit), min_bound = 0, max_bound = 0,
                 multinode_constraint = True, weight = 2, quadratic = True,
                 nodes_phase = [0, 1], nodes = [PyNode END, PyNode START], node = MULTINODES,
                 dt = 1, node_idx = [0], list_index = - 1, base = InheritedBase\<rparr>;
        ocp = \<lparr>g_internal = [Penalty ()], J_internal = [], n_phases = 2\<rparr>
    in prepare_multinode_constraints [mnc, mnc\<lparr>nodes_phase := [0, 2]\<rparr>] ocp =
         ([mnc\<lparr>base := ObjectiveFunction_MayerFunction\<rparr>, mnc\<lparr>nodes_phase := [0, 2]\<rparr>], ocp,
          Inl InvalidPhaseReference))"
proof -
  let ?mnc = "\<lparr>penalty = Fcn STATES_EQUALITY, custom_function = (PyNone :: unit pyobj),
                 params = (Map.empty :: string \<rightharpoonup> unit), min_bound = 0, max_bound = 0,
                 multinode_constraint = True, weight = 2, quadratic = True,
                 nodes_phase = [0, 1], nodes = [PyNode END, PyNode START], node = MULTINODES,
                 dt = 1, node_idx = [0], list_index = - 1, base = InheritedBase\<rparr>"
  let ?ocp = "\<lparr>g_internal = [Penalty ()], J_internal = [], n_phases = 2\<rparr>"
  let ?self = "[?mnc, ?mnc\<lparr>nodes_phase := [0, 2]\<rparr>]"
  have k: "1 < length ?self" by simp
  have bad: "\<exists>phase\<in>set (nodes_phase (?self ! 1)). phase < 0 \<or> n_phases ?ocp \<le> phase"
    by simp
  have good: "\<forall>j<1. \<forall>phase\<in>set (nodes_phase (?self ! j)). 0 \<le> phase \<and> phase < n_phases ?ocp"
    by simp
  from prepare_multinode_constraints_not_atomic [OF k bad good]
  have "snd (snd (prepare_multinode_constraints ?self ?ocp)) = Inl InvalidPhaseReference"
    and "fst (prepare_multinode_constraints ?self ?ocp) =
           map (\<lambda>mnc. if weight mnc \<noteq> 0 then mnc\<lparr>base := ObjectiveFunction_MayerFunction\<rparr>
                       else mnc) (take 1 ?self) @ drop 1 ?self"
    by blast+
  moreover have "fst (snd (prepare_multinode_constraints ?self ?ocp)) = ?ocp"
    by (simp add: prepare_multinode_constraints_def split: prod.splits)
  ultimately show ?thesis unfolding Let_def by (simp add: prod_eq_iff)
qed

subsection \<open>The constructor\<close>




text \<open>
  Claim C9. When the key \<open>force_multinode\<close> is among the extra parameters, with any value
  \<open>v\<close>, the parent's constructor gets the first argument as it was given (it is not
  replaced by \<open>CUSTOM\<close>, whether it is a member of the library or not), the custom function
  as it was given, and the parameters without that key; a link that is constructed holds
  these three.
\<close>

theorem force_multinode_key_presence:
  assumes "kw ''force_multinode'' = Some v"
  shows "init_parent_arguments mc cf kw = (mc, cf, kw(''force_multinode'' := None)) \<and>
         (\<forall>l. MultinodeConstraint_init parent ns ps mc cf lo hi w kw = Inr l \<longrightarrow>
            penalty l = mc \<and> custom_function l = cf \<and> params l = kw(''force_multinode'' := None))"
  using assms
  by (auto simp: init_parent_arguments_def MultinodeConstraint_init_def
      split: if_splits option.splits)

theorem force_multinode_key_presence_witness:
  "init_parent_arguments (Callable (0 :: nat)) PyNone [''force_multinode'' \<mapsto> False, ''phase'' \<mapsto> True]
     = (Callable 0, PyNone, [''phase'' \<mapsto> True]) \<and>
   init_parent_arguments (Callable (0 :: nat)) PyNone [''phase'' \<mapsto> True]
     = (Fcn CUSTOM, Callable 0, [''phase'' \<mapsto> True]) \<and>
   (\<exists>l. MultinodeConstraint_init (\<lambda>p c k. None) [PyNode END, PyNode START] [PyInt 0, PyInt 1]
           (Callable (0 :: nat)) PyNone 0 0 0 [''force_multinode'' \<mapsto> False, ''phase'' \<mapsto> True] = Inr l \<and>
        penalty l = Callable 0 \<and> custom_function l = PyNone \<and> params l = [''phase'' \<mapsto> True])"
proof -
  let ?kw = "[''force_multinode'' \<mapsto> False, ''phase'' \<mapsto> True]"
  have k: "?kw ''force_multinode'' = Some False" by simp
  have e: "?kw(''force_multinode'' := None) = [''phase'' \<mapsto> True]"
    by (rule ext) simp
  obtain l where l: "MultinodeConstraint_init (\<lambda>p c k. None) [PyNode END, PyNode START]
      [PyInt 0, PyInt 1] (Callable (0 :: nat)) PyNone 0 0 0 ?kw = Inr l"
    by (simp add: MultinodeConstraint_init_def init_parent_arguments_def super_init_def)
  from force_multinode_key_presence [where kw = ?kw and v = False and mc = "Callable (0 :: nat)"
      and cf = PyNone and parent = "\<lambda>p c k. None" and ns = "[PyNode END, PyNode START]" and ps = "[PyInt 0, PyInt 1]"
      and lo = 0 and hi = 0 and w = 0] k l
  have "init_parent_arguments (Callable (0 :: nat)) PyNone ?kw = (Callable 0, PyNone, ?kw(''force_multinode'' := None))"
    and "penalty l = Callable 0 \<and> custom_function l = PyNone \<and> params l = ?kw(''force_multinode'' := None)"
    by blast+
  moreover have "init_parent_arguments (Callable (0 :: nat)) PyNone [''phase'' \<mapsto> True]
     = (Fcn CUSTOM, Callable 0, [''phase'' \<mapsto> True])"
    by (simp add: init_parent_arguments_def)
  ultimately show ?thesis using l unfolding e by blast
qed

end
